theory Spec2Isabelle
  imports Main "HOL-Library.Word"
begin

section \<open>The kubelet summary document, as far as collector.go reads it\<close>

text \<open>
  The types of \<^verbatim>\<open>k8s.io/kubelet/pkg/apis/stats/v1alpha1\<close> are a library's; only the
  fields that collector.go reads are kept. A Go pointer to a value that the program
  never writes through is an \<open>option\<close>: \<open>None\<close> is \<^verbatim>\<open>nil\<close>. \<^verbatim>\<open>PodRef\<close>
  is a struct value, not a pointer: a document without it leaves both strings empty.
\<close>

type_synonym uint64 = "64 word"

text \<open>\<^verbatim>\<open>time.Duration\<close> is an \<^verbatim>\<open>int64\<close> of nanoseconds: a 64-bit word read with \<open>sint\<close>.\<close>

type_synonym Duration = "64 word"

record FsStats =
  AvailableBytes :: "uint64 option"
  CapacityBytes :: "uint64 option"
  UsedBytes :: "uint64 option"

record PodReference =
  Name :: string
  Namespace :: string

record PodStats =
  PodRef :: PodReference
  EphemeralStorage :: "FsStats option"

record NodeStats =
  NodeName :: string

record Summary =
  Node :: NodeStats
  Pods :: "PodStats list"

text \<open>The value of \<^verbatim>\<open>stats.Summary{}\<close> (line 84).\<close>

definition zero_Summary :: Summary where
  "zero_Summary = \<lparr>Node = \<lparr>NodeName = []\<rparr>, Pods = []\<rparr>"

section \<open>Errors, panics and log lines\<close>

datatype error = Err string

datatype panic =
  NilPointerDereference
  | CloseOfNilChannel
  | CloseOfClosedChannel
  | InconsistentLabelCardinality

datatype log_entry =
  Warning string
  | Error error
  | InfoV nat string

text \<open>
  A call either returns or takes the process down with an unrecovered panic. A call
  that blocks for ever has no outcome: the functions below that can block return an
  \<open>outcome option\<close>, \<open>None\<close> when the fuel given was not enough to see the call end.
\<close>

datatype 'a outcome = Returned 'a | Crashed panic

section \<open>The manager and the memory its records live in\<close>

text \<open>
  \<^verbatim>\<open>podEphemeralStorageStat\<close> (lines 34-39). The embedded \<^verbatim>\<open>*stats.FsStats\<close> is the
  field \<open>FsStats\<close>; the records of one snapshot and their copies share what it points to.
\<close>

record podEphemeralStorageStat =
  nodeName :: string
  podName :: string
  namespace :: string
  FsStats :: "FsStats option"

text \<open>
  The manager holds a slice of pointers to records, and \<^verbatim>\<open>RecentStats\<close> hands out a
  slice of record values in a backing array of its own. Both are locations of one
  memory of records: a location is an index into the list of every record allocated so
  far, an allocation appends to the list, and a write replaces one element.
\<close>

type_synonym addr = nat

type_synonym heap = "podEphemeralStorageStat list"

definition new_stat :: "podEphemeralStorageStat \<Rightarrow> heap \<Rightarrow> addr \<times> heap" where
  "new_stat v h = (length h, h @ [v])"

definition records_at :: "heap \<Rightarrow> addr list \<Rightarrow> podEphemeralStorageStat list" where
  "records_at h ps = map (\<lambda>p. h ! p) ps"

datatype chan = Open | Closed

text \<open>
  \<^verbatim>\<open>manager\<close> (lines 20-32). \<open>wg\<close> is the counter of the \<^verbatim>\<open>sync.WaitGroup\<close>: the
  number of polling goroutines started (line 63, one \<^verbatim>\<open>Add(1)\<close> before each
  \<^verbatim>\<open>go\<close>) that have not reached their deferred \<^verbatim>\<open>Done()\<close>, that is, the number of
  live polling loops. \<open>stopCh\<close> is \<open>None\<close> while the channel is \<^verbatim>\<open>nil\<close>. The client
  handle is left to the environment (the results of its fetches are inputs of a poll
  cycle), \<^verbatim>\<open>statsLastUpdatedTime\<close> is never read or written, and the two mutexes are
  not fields of the model: every call and every publish is one atomic step here.
\<close>

record manager =
  node :: string
  scrapeInterval :: Duration
  podEphemeralStorageStats :: "addr list"
  wg :: nat
  stopCh :: "chan option"
  running :: bool

type_synonym state = "heap \<times> manager"

definition snapshot :: "state \<Rightarrow> podEphemeralStorageStat list" where
  "snapshot s = records_at (fst s) (podEphemeralStorageStats (snd s))"

text \<open>
  \<^verbatim>\<open>NewManager\<close> (lines 41-51); the argument is what \<^verbatim>\<open>os.LookupEnv\<close> finds for
  \<^verbatim>\<open>CURRENT_NODE_NAME\<close>.
\<close>

definition NewManager :: "string option \<Rightarrow> Duration \<Rightarrow> manager \<times> log_entry list" where
  "NewManager currentNode interval =
     (\<lparr>node = (case currentNode of None \<Rightarrow> [] | Some n \<Rightarrow> n),
       scrapeInterval = interval,
       podEphemeralStorageStats = [],
       wg = 0,
       stopCh = None,
       running = False\<rparr>,
      (case currentNode of
         None \<Rightarrow> [Warning ''current node info is not passed.'']
       | Some n \<Rightarrow> []))"

text \<open>
  \<^verbatim>\<open>Start\<close> (lines 53-64 and 117). The \<^verbatim>\<open>go\<close> statement of line 65 shows in the
  model as the new goroutine counted in \<open>wg\<close>; what the goroutine does is
  \<open>polling_loop\<close> below.
\<close>

definition Start :: "manager \<Rightarrow> error option \<times> manager" where
  "Start m =
     (if running m then (Some (Err ''ephemeral metrics manager is already running''), m)
      else (None, m\<lparr>running := True, stopCh := Some Open, wg := wg m + 1\<rparr>))"

section \<open>One poll cycle (lines 76-113)\<close>

text \<open>
  What a cycle takes from its environment: the two results of \<^verbatim>\<open>DoRaw\<close> (line 78)
  and the time \<^verbatim>\<open>end.Sub(start)\<close> the cycle took (line 110).
\<close>

record poll_obs =
  content :: string
  err :: "error option"
  elapsed :: Duration

text \<open>The struct literal of lines 94-99.\<close>

definition make_stat :: "string \<Rightarrow> PodStats \<Rightarrow> podEphemeralStorageStat" where
  "make_stat nodeName' podStat =
     \<lparr>nodeName = nodeName',
      podName = Name (PodRef podStat),
      namespace = Namespace (PodRef podStat),
      FsStats = EphemeralStorage podStat\<rparr>"

text \<open>
  The loop of lines 90-100: every entry of \<^verbatim>\<open>raw.Pods\<close> gets a record of its own,
  allocated by \<^verbatim>\<open>&podEphemeralStorageStat{...}\<close>, and its address is appended.
\<close>

fun build_stats :: "string \<Rightarrow> PodStats list \<Rightarrow> heap \<Rightarrow> addr list \<Rightarrow> addr list \<times> heap" where
  "build_stats nodeName' [] h acc = (acc, h)"
| "build_stats nodeName' (podStat # rest) h acc =
     (case new_stat (make_stat nodeName' podStat) h of
        (p, h') \<Rightarrow> build_stats nodeName' rest h' (acc @ [p]))"

text \<open>
  \<^verbatim>\<open>json.Unmarshal\<close> is the library's, so the cycle takes it as the parameter
  \<open>unmarshal\<close>: \<open>unmarshal c\<close> is what \<^verbatim>\<open>raw\<close> points to after line 85, having
  started as a pointer to \<^verbatim>\<open>stats.Summary{}\<close>. The error of the call is thrown away
  by the source. \<open>None\<close> is \<^verbatim>\<open>raw == nil\<close>, which decoding the document \<^verbatim>\<open>null\<close>
  into \<^verbatim>\<open>&raw\<close> produces; line 87 then dereferences it.

  The result is the new state, the duration given to \<^verbatim>\<open>timer.Reset\<close> (line 113) and
  the log lines of the cycle; the last line, which prints the three times of line 111,
  is kept by its first words.
\<close>

definition poll_cycle ::
  "(string \<Rightarrow> Summary option) \<Rightarrow> poll_obs \<Rightarrow> state \<Rightarrow> panic + (state \<times> Duration \<times> log_entry list)" where
  "poll_cycle unmarshal obs s =
     (let h = fst s; m = snd s;
          logs1 = (case err obs of None \<Rightarrow> [] | Some e \<Rightarrow> [Error e])
                  @ [InfoV 4 (''Fetched proxy stats from node : %s'' @ node m)]
      in case unmarshal (content obs) of
           None \<Rightarrow> Inl NilPointerDereference
         | Some raw \<Rightarrow>
             (case build_stats (NodeName (Node raw)) (Pods raw) h [] of
                (stats, h') \<Rightarrow>
                  Inr ((h', m\<lparr>podEphemeralStorageStats := stats\<rparr>),
                       scrapeInterval m - elapsed obs,
                       logs1 @ [InfoV 3 ''Taking time to get node stat summary''])))"

text \<open>
  The goroutine of lines 65-115. The \<^verbatim>\<open>for\<close> has no condition and its body has no
  \<^verbatim>\<open>break\<close> or \<^verbatim>\<open>return\<close>: both cases of the \<^verbatim>\<open>select\<close> (lines 72-75) are empty
  and fall through to the cycle, whichever of the stop channel and the timer woke it.
  So the loop ends only when a cycle panics. \<open>env k\<close> is what the k-th cycle from now
  observes; the result is \<open>None\<close> when the loop is still running after \<open>fuel\<close> cycles.
\<close>

fun polling_loop ::
  "(string \<Rightarrow> Summary option) \<Rightarrow> (nat \<Rightarrow> poll_obs) \<Rightarrow> nat \<Rightarrow> nat \<Rightarrow> state \<Rightarrow> panic option" where
  "polling_loop unmarshal env 0 k s = None"
| "polling_loop unmarshal env (Suc fuel) k s =
     (case poll_cycle unmarshal (env k) s of
        Inl p \<Rightarrow> Some p
      | Inr (s', wait, logs) \<Rightarrow> polling_loop unmarshal env fuel (Suc k) s')"

text \<open>
  \<^verbatim>\<open>Stop\<close> (lines 120-136). \<^verbatim>\<open>close\<close> panics on a nil and on a closed channel.
  \<^verbatim>\<open>wg.Wait()\<close> returns at once when the counter is zero; otherwise it waits for the
  deferred \<^verbatim>\<open>wg.Done()\<close> of the polling goroutine, which runs when \<open>polling_loop\<close>
  ends. An unrecovered panic of the goroutine ends the process.
\<close>

definition Stop ::
  "(string \<Rightarrow> Summary option) \<Rightarrow> (nat \<Rightarrow> poll_obs) \<Rightarrow> nat \<Rightarrow> state
     \<Rightarrow> (error option \<times> state \<times> log_entry list) outcome option" where
  "Stop unmarshal env fuel s =
     (let h = fst s; m = snd s in
      if \<not> running m then Some (Returned (None, s, [Warning ''metrics manager already stopped'']))
      else
        (case stopCh m of
           None \<Rightarrow> Some (Crashed CloseOfNilChannel)
         | Some Closed \<Rightarrow> Some (Crashed CloseOfClosedChannel)
         | Some Open \<Rightarrow>
             (let m1 = m\<lparr>stopCh := Some Closed\<rparr> in
              if wg m1 = 0 then Some (Returned (None, (h, m1\<lparr>running := False\<rparr>), []))
              else
                (case polling_loop unmarshal env fuel 0 (h, m1) of
                   None \<Rightarrow> None
                 | Some p \<Rightarrow> Some (Crashed p)))))"

text \<open>
  \<^verbatim>\<open>RecentStats\<close> (lines 138-147): \<^verbatim>\<open>append(ret, *stat)\<close> copies the record that
  \<^verbatim>\<open>stat\<close> points to into the next element of \<^verbatim>\<open>ret\<close>. The elements of the
  result are new locations (a growing \<^verbatim>\<open>append\<close> moves the earlier elements to a new
  array, which the model does not follow: the result's elements are allocated one by
  one). An address with no record behind it stands for the nil pointer.
\<close>

fun copy_stats :: "addr list \<Rightarrow> heap \<Rightarrow> addr list \<Rightarrow> panic + (addr list \<times> heap)" where
  "copy_stats [] h ret = Inr (ret, h)"
| "copy_stats (stat # rest) h ret =
     (if stat < length h
      then (case new_stat (h ! stat) h of (a, h') \<Rightarrow> copy_stats rest h' (ret @ [a]))
      else Inl NilPointerDereference)"

definition RecentStats :: "state \<Rightarrow> panic + (addr list \<times> state)" where
  "RecentStats s =
     (case copy_stats (podEphemeralStorageStats (snd s)) (fst s) [] of
        Inl p \<Rightarrow> Inl p
      | Inr (ret, h') \<Rightarrow> Inr (ret, (h', snd s)))"

section \<open>The collector (lines 149-229)\<close>

datatype ValueType = CounterValue | GaugeValue | UntypedValue

text \<open>
  \<^verbatim>\<open>ephemeralStorageMetric\<close> (lines 149-155). \<^verbatim>\<open>getValue\<close> dereferences its
  argument and then one of its fields, each of which may be nil. The sample value is
  kept as the \<^verbatim>\<open>uint64\<close> read; the conversion \<^verbatim>\<open>float64(...)\<close> that follows is
  not modelled.
\<close>

record ephemeralStorageMetric =
  name :: string
  helpText :: string
  extraLabels :: "string list"
  valueType :: ValueType
  getValue :: "FsStats option \<Rightarrow> panic + uint64"

text \<open>What the Prometheus client keeps of a descriptor, and the two kinds of sample sent.\<close>

record Desc =
  fqName :: string
  descHelp :: string
  variableLabels :: "string list"

datatype Metric =
  ConstMetric Desc ValueType uint64 "string list"
  | GaugeMetric Desc int

definition desc :: "ephemeralStorageMetric \<Rightarrow> string list \<Rightarrow> Desc" where
  "desc m baseLabels =
     \<lparr>fqName = name m, descHelp = helpText m, variableLabels = baseLabels @ extraLabels m\<rparr>"

text \<open>
  \<^verbatim>\<open>prometheus.MustNewConstMetric\<close> panics when the number of label values is not the
  number of the descriptor's labels. (It also panics on a malformed descriptor or label
  value; the descriptors of this collector are constants that are well formed.)
\<close>

definition MustNewConstMetric :: "Desc \<Rightarrow> ValueType \<Rightarrow> uint64 \<Rightarrow> string list \<Rightarrow> panic + Metric" where
  "MustNewConstMetric d vt v labelValues =
     (if length labelValues = length (variableLabels d) then Inr (ConstMetric d vt v labelValues)
      else Inl InconsistentLabelCardinality)"

record ephemeralStorageCollector =
  errors :: int
  metrics :: "ephemeralStorageMetric list"

definition namespace_var :: string where
  "namespace_var = ''ephemeral_storage''"

definition errors_desc :: Desc where
  "errors_desc =
     \<lparr>fqName = namespace_var @ ''_'' @ ''scrape_error'',
      descHelp = ''1 if there was an error while getting container metrics, 0 otherwise'',
      variableLabels = []\<rparr>"

text \<open>The three closures of lines 183-185, 191-193 and 199-201.\<close>

definition getValue_used :: "FsStats option \<Rightarrow> panic + uint64" where
  "getValue_used stats =
     (case stats of
        None \<Rightarrow> Inl NilPointerDereference
      | Some fs \<Rightarrow> (case UsedBytes fs of None \<Rightarrow> Inl NilPointerDereference | Some v \<Rightarrow> Inr v))"

definition getValue_available :: "FsStats option \<Rightarrow> panic + uint64" where
  "getValue_available stats =
     (case stats of
        None \<Rightarrow> Inl NilPointerDereference
      | Some fs \<Rightarrow> (case AvailableBytes fs of None \<Rightarrow> Inl NilPointerDereference | Some v \<Rightarrow> Inr v))"

definition getValue_capacity :: "FsStats option \<Rightarrow> panic + uint64" where
  "getValue_capacity stats =
     (case stats of
        None \<Rightarrow> Inl NilPointerDereference
      | Some fs \<Rightarrow> (case CapacityBytes fs of None \<Rightarrow> Inl NilPointerDereference | Some v \<Rightarrow> Inr v))"

definition newEphemeralStorageCollector :: ephemeralStorageCollector where
  "newEphemeralStorageCollector =
     \<lparr>errors = 0,
      metrics =
        [\<lparr>name = ''ephemeral_storage_pod_used_bytes'',
          helpText = ''Used bytes to expose Ephemeral Storage metrics for pod'',
          extraLabels = [],
          valueType = GaugeValue,
          getValue = getValue_used\<rparr>,
         \<lparr>name = ''ephemeral_storage_pod_available_bytes'',
          helpText = ''Available bytes of ephemeral storage'',
          extraLabels = [],
          valueType = GaugeValue,
          getValue = getValue_available\<rparr>,
         \<lparr>name = ''ephemeral_storage_pod_capacity_bytes'',
          helpText = ''Capacity bytes of pod ephemeral storage'',
          extraLabels = [],
          valueType = GaugeValue,
          getValue = getValue_capacity\<rparr>]\<rparr>"

text \<open>
  The inner loop of lines 225-227: \<open>ch\<close> is what has been sent on the channel so far,
  and a panic leaves it as it is.
\<close>

fun collect_pods ::
  "Desc \<Rightarrow> ephemeralStorageMetric \<Rightarrow> podEphemeralStorageStat list \<Rightarrow> Metric list
     \<Rightarrow> Metric list \<times> panic option" where
  "collect_pods d metric [] ch = (ch, None)"
| "collect_pods d metric (stat # rest) ch =
     (case getValue metric (FsStats stat) of
        Inl p \<Rightarrow> (ch, Some p)
      | Inr v \<Rightarrow>
          (case MustNewConstMetric d (valueType metric) v [nodeName stat, namespace stat, podName stat] of
             Inl p \<Rightarrow> (ch, Some p)
           | Inr sample \<Rightarrow> collect_pods d metric rest (ch @ [sample])))"

text \<open>The outer loop of lines 223-228.\<close>

fun collect_metrics ::
  "ephemeralStorageMetric list \<Rightarrow> podEphemeralStorageStat list \<Rightarrow> Metric list
     \<Rightarrow> Metric list \<times> panic option" where
  "collect_metrics [] stats ch = (ch, None)"
| "collect_metrics (metric # rest) stats ch =
     (case collect_pods (desc metric [''node_name'', ''namespace_name'', ''pod_name'']) metric stats ch of
        (ch', Some p) \<Rightarrow> (ch', Some p)
      | (ch', None) \<Rightarrow> collect_metrics rest stats ch')"

text \<open>
  \<^verbatim>\<open>collectEphemeralStorageInfo\<close> (lines 221-229) reads the manager once and ranges
  over the records of the slice it got.
\<close>

definition collectEphemeralStorageInfo ::
  "ephemeralStorageCollector \<Rightarrow> state \<Rightarrow> Metric list \<Rightarrow> (Metric list \<times> panic option) \<times> state" where
  "collectEphemeralStorageInfo c s ch =
     (case RecentStats s of
        Inl p \<Rightarrow> ((ch, Some p), s)
      | Inr (ret, s') \<Rightarrow> (collect_metrics (metrics c) (records_at (fst s') ret) ch, s'))"

text \<open>
  \<^verbatim>\<open>Collect\<close> (lines 208-212): the samples sent on the channel, the panic that ended
  the call if one did, the collector with its gauge set, and the state.
\<close>

definition Collect ::
  "ephemeralStorageCollector \<Rightarrow> state
     \<Rightarrow> (Metric list \<times> panic option) \<times> ephemeralStorageCollector \<times> state" where
  "Collect c s =
     (let c0 = c\<lparr>errors := 0\<rparr> in
      case collectEphemeralStorageInfo c0 s [] of
        ((ch, Some p), s') \<Rightarrow> ((ch, Some p), c0, s')
      | ((ch, None), s') \<Rightarrow> ((ch @ [GaugeMetric errors_desc (errors c0)], None), c0, s'))"

text \<open>A record with its stats and all three byte fields present.\<close>

definition complete :: "podEphemeralStorageStat \<Rightarrow> bool" where
  "complete stat =
     (case FsStats stat of
        None \<Rightarrow> False
      | Some fs \<Rightarrow> UsedBytes fs \<noteq> None \<and> AvailableBytes fs \<noteq> None \<and> CapacityBytes fs \<noteq> None)"

section \<open>Runs of the program\<close>

text \<open>
  The states a run can be in between two steps: the calls of \<^verbatim>\<open>Start\<close> and
  \<^verbatim>\<open>Stop\<close> that returned, the cycles of a live polling loop (any fetch result, any
  decoder), and the reads of the collector, in any order.
\<close>

inductive reachable :: "state \<Rightarrow> bool" where
  new: "reachable ([], fst (NewManager currentNode interval))"
| start: "reachable s \<Longrightarrow> reachable (fst s, snd (Start (snd s)))"
| stop: "reachable s \<Longrightarrow> Stop unmarshal env fuel s = Some (Returned (e, s', logs)) \<Longrightarrow> reachable s'"
| cycle: "reachable s \<Longrightarrow> 0 < wg (snd s) \<Longrightarrow> poll_cycle unmarshal obs s = Inr (s', wait, logs)
            \<Longrightarrow> reachable s'"
| read: "reachable s \<Longrightarrow> RecentStats s = Inr (ret, s') \<Longrightarrow> reachable s'"

text \<open>Every pointer of the manager's slice has a record behind it.\<close>

definition stats_allocated :: "state \<Rightarrow> bool" where
  "stats_allocated s = list_all (\<lambda>p. p < length (fst s)) (podEphemeralStorageStats (snd s))"

text \<open>
  A caller that assigns to elements of a slice it holds, or to fields of them: each
  write puts a record at a location.
\<close>

fun write_stats :: "(addr \<times> podEphemeralStorageStat) list \<Rightarrow> heap \<Rightarrow> heap" where
  "write_stats [] h = h"
| "write_stats ((a, v) # ws) h = write_stats ws (h[a := v])"

text \<open>A number of calls of \<^verbatim>\<open>RecentStats\<close> in a row.\<close>

fun read_times :: "nat \<Rightarrow> state \<Rightarrow> panic + state" where
  "read_times 0 s = Inr s"
| "read_times (Suc n) s =
     (case RecentStats s of Inl p \<Rightarrow> Inl p | Inr (ret, s') \<Rightarrow> read_times n s')"

section \<open>Concrete inputs\<close>

text \<open>
  A decoder given by a table of documents: the document \<^verbatim>\<open>null\<close> sets the pointer to
  nil, a document of the table decodes to its summary, and anything else is refused,
  which leaves the summary at its zero value.
\<close>

definition decode_table :: "(string \<times> Summary) list \<Rightarrow> string \<Rightarrow> Summary option" where
  "decode_table tbl c =
     (if c = ''null'' then None
      else (case map_of tbl c of None \<Rightarrow> Some zero_Summary | Some raw \<Rightarrow> Some raw))"

definition pod_a :: PodStats where
  "pod_a =
     \<lparr>PodRef = \<lparr>Name = ''a'', Namespace = ''default''\<rparr>,
      EphemeralStorage = Some \<lparr>AvailableBytes = Some 200, CapacityBytes = Some 300, UsedBytes = Some 100\<rparr>\<rparr>"

definition pod_b :: PodStats where
  "pod_b =
     \<lparr>PodRef = \<lparr>Name = ''b'', Namespace = ''default''\<rparr>,
      EphemeralStorage = Some \<lparr>AvailableBytes = None, CapacityBytes = Some 30, UsedBytes = Some 10\<rparr>\<rparr>"

text \<open>A pod that has just been created: no pod reference, no ephemeral-storage stats.\<close>

definition pod_new :: PodStats where
  "pod_new = \<lparr>PodRef = \<lparr>Name = [], Namespace = []\<rparr>, EphemeralStorage = None\<rparr>"

definition summary_ab :: Summary where
  "summary_ab = \<lparr>Node = \<lparr>NodeName = ''node1''\<rparr>, Pods = [pod_a, pod_b]\<rparr>"

definition summary_a_new :: Summary where
  "summary_a_new = \<lparr>Node = \<lparr>NodeName = ''node1''\<rparr>, Pods = [pod_a, pod_new]\<rparr>"

definition docs :: "(string \<times> Summary) list" where
  "docs = [(''ab'', summary_ab), (''a_new'', summary_a_new)]"

text \<open>A manager polling every 15 seconds, before and after \<^verbatim>\<open>Start\<close>.\<close>

definition manager0 :: manager where
  "manager0 = fst (NewManager (Some ''node1'') 15000000000)"

definition manager1 :: manager where
  "manager1 = snd (Start manager0)"

text \<open>Three fetches: two that succeed in a second, one that fails after 16 seconds.\<close>

definition fetch_ab :: poll_obs where
  "fetch_ab = \<lparr>content = ''ab'', err = None, elapsed = 1000000000\<rparr>"

definition fetch_a_new :: poll_obs where
  "fetch_a_new = \<lparr>content = ''a_new'', err = None, elapsed = 1000000000\<rparr>"

definition fetch_failed :: poll_obs where
  "fetch_failed = \<lparr>content = [], err = Some (Err ''connection refused''), elapsed = 16000000000\<rparr>"

text \<open>
  A fetch that fails with an error status and still returns a body (\<^verbatim>\<open>DoRaw\<close> returns
  both).
\<close>

definition fetch_error_body :: poll_obs where
  "fetch_error_body =
     \<lparr>content = ''ab'', err = Some (Err ''the server is currently unable to handle the request''),
      elapsed = 1000000000\<rparr>"

text \<open>A fetch that succeeds, but only after 16 seconds.\<close>

definition fetch_slow :: poll_obs where
  "fetch_slow = \<lparr>content = ''ab'', err = None, elapsed = 16000000000\<rparr>"

text \<open>An environment in which every fetch gives the same result.\<close>

definition always :: "poll_obs \<Rightarrow> nat \<Rightarrow> poll_obs" where
  "always obs k = obs"

text \<open>
  The states after a first cycle that fetched \<open>fetch_ab\<close>, after a first cycle that
  fetched \<open>fetch_a_new\<close>, and after \<open>fetch_ab\<close> followed by \<open>fetch_failed\<close>.
\<close>

definition state_ab :: state where
  "state_ab =
     ([make_stat ''node1'' pod_a, make_stat ''node1'' pod_b],
      manager1\<lparr>podEphemeralStorageStats := [0, 1]\<rparr>)"

definition state_a_new :: state where
  "state_a_new =
     ([make_stat ''node1'' pod_a, make_stat ''node1'' pod_new],
      manager1\<lparr>podEphemeralStorageStats := [0, 1]\<rparr>)"

definition state_failed :: state where
  "state_failed =
     ([make_stat ''node1'' pod_a, make_stat ''node1'' pod_b],
      manager1\<lparr>podEphemeralStorageStats := []\<rparr>)"

section \<open>Allocation and the two loops over records\<close>

lemma upt_cons_shift: "[a ..< a + Suc n] = a # [Suc a ..< Suc a + n]"
  using upt_conv_Cons [of a "a + Suc n"] by simp

lemma build_stats_eq:
  "build_stats n pods h acc =
     (acc @ [length h ..< length h + length pods], h @ map (make_stat n) pods)"
proof (induction pods arbitrary: h acc)
  case Nil
  show ?case by simp
next
  case (Cons p ps)
  have "[length h ..< length h + length (p # ps)]
          = length h # [Suc (length h) ..< Suc (length h) + length ps]"
    using upt_cons_shift [of "length h" "length ps"] by simp
  then show ?case by (simp add: new_stat_def Cons.IH)
qed

lemma records_at_fresh: "records_at (h @ xs) [length h ..< length h + length xs] = xs"
proof -
  have "map (\<lambda>p. (h @ xs) ! p) [length h ..< length h + length xs]
          = map (\<lambda>i. xs ! i) [0 ..< length xs]"
    by (rule nth_equalityI) (simp_all add: nth_append)
  then show ?thesis by (simp add: records_at_def map_nth)
qed

lemma records_at_append:
  "list_all (\<lambda>p. p < length h) ps \<Longrightarrow> records_at (h @ ext) ps = records_at h ps"
  by (induction ps) (simp_all add: records_at_def nth_append)

lemma copy_stats_eq:
  "list_all (\<lambda>p. p < length h) ps \<Longrightarrow>
   copy_stats ps h ret = Inr (ret @ [length h ..< length h + length ps], h @ records_at h ps)"
proof (induction ps arbitrary: h ret)
  case Nil
  show ?case by (simp add: records_at_def)
next
  case (Cons p ps)
  from Cons.prems have p: "p < length h"
    and ps: "list_all (\<lambda>q. q < length (h @ [h ! p])) ps"
    by (auto simp: list_all_iff)
  have u: "[length h ..< length h + length (p # ps)]
             = length h # [Suc (length h) ..< Suc (length h) + length ps]"
    using upt_cons_shift [of "length h" "length ps"] by simp
  have r: "records_at (h @ [h ! p]) ps = records_at h ps"
    using Cons.prems by (intro records_at_append) simp
  show ?case using p Cons.IH [OF ps] u r
    by (simp add: new_stat_def records_at_def)
qed

section \<open>What a poll cycle computes\<close>

lemma poll_cycle_eq:
  "unmarshal (content obs) = Some raw \<Longrightarrow>
   poll_cycle unmarshal obs s =
     Inr ((fst s @ map (make_stat (NodeName (Node raw))) (Pods raw),
           (snd s)\<lparr>podEphemeralStorageStats :=
                      [length (fst s) ..< length (fst s) + length (Pods raw)]\<rparr>),
          scrapeInterval (snd s) - elapsed obs,
          (case err obs of None \<Rightarrow> [] | Some e \<Rightarrow> [Error e])
            @ [InfoV 4 (''Fetched proxy stats from node : %s'' @ node (snd s)),
               InfoV 3 ''Taking time to get node stat summary''])"
  by (simp add: poll_cycle_def build_stats_eq Let_def)

lemma poll_cycle_nil:
  "unmarshal (content obs) = None \<Longrightarrow> poll_cycle unmarshal obs s = Inl NilPointerDereference"
  by (simp add: poll_cycle_def)

lemma poll_cycle_snapshot:
  assumes "unmarshal (content obs) = Some raw"
  shows "\<exists>s' wait logs. poll_cycle unmarshal obs s = Inr (s', wait, logs)
           \<and> snapshot s' = map (make_stat (NodeName (Node raw))) (Pods raw)
           \<and> wait = scrapeInterval (snd s) - elapsed obs
           \<and> (\<forall>e. err obs = Some e \<longrightarrow> Error e \<in> set logs)
           \<and> snd s' = (snd s)\<lparr>podEphemeralStorageStats := podEphemeralStorageStats (snd s')\<rparr>
           \<and> stats_allocated s'"
proof -
  let ?new = "map (make_stat (NodeName (Node raw))) (Pods raw)"
  let ?s' = "(fst s @ ?new,
           (snd s)\<lparr>podEphemeralStorageStats :=
                      [length (fst s) ..< length (fst s) + length (Pods raw)]\<rparr>)"
  have snap: "snapshot ?s' = ?new"
    using records_at_fresh [of "fst s" ?new] by (simp add: snapshot_def)
  have alloc: "stats_allocated ?s'"
    by (simp add: stats_allocated_def list_all_iff)
  from poll_cycle_eq [of unmarshal obs raw s, OF assms] snap alloc show ?thesis
    by (auto split: option.splits)
qed

section \<open>Start, Stop and the polling loop\<close>

text \<open>
  As long as no fetched document decodes to the nil pointer, the loop is still running
  after any number of cycles, from every state: also from one whose stop channel is
  closed.
\<close>

lemma polling_loop_runs:
  "(\<And>j. unmarshal (content (env j)) \<noteq> None) \<Longrightarrow> polling_loop unmarshal env fuel k s = None"
proof (induction fuel arbitrary: k s)
  case 0
  show ?case by simp
next
  case (Suc fuel)
  obtain raw where raw: "unmarshal (content (env k)) = Some raw"
    using Suc.prems [of k] by auto
  show ?case
    using poll_cycle_eq [of unmarshal "env k" raw s, OF raw] Suc.IH Suc.prems by simp
qed

text \<open>
  C1, as the code behaves. The claim is that \<^verbatim>\<open>Stop()\<close> on a running manager ends
  the polling loop and returns once the goroutine has exited. In the code the stop
  case of the \<^verbatim>\<open>select\<close> is empty and the loop has no exit, so: \<^verbatim>\<open>Stop()\<close> called
  on a manager that was created and started never returns, whatever the fetches give
  and however long one waits; and when no fetched document decodes to nil, so that
  no cycle panics, the polling loop is still running after any number of cycles, from
  every state, and \<^verbatim>\<open>Stop()\<close> is still blocked in \<^verbatim>\<open>wg.Wait()\<close>.
\<close>

theorem Stop_never_returns:
  "(\<forall>r. Stop unmarshal env fuel (h, snd (Start (fst (NewManager currentNode interval))))
           \<noteq> Some (Returned r))
   \<and> ((\<forall>j. unmarshal (content (env j)) \<noteq> None) \<longrightarrow>
        polling_loop unmarshal env fuel k s = None
        \<and> Stop unmarshal env fuel (h, snd (Start (fst (NewManager currentNode interval)))) = None)"
proof -
  let ?m = "snd (Start (fst (NewManager currentNode interval)))"
  have m: "running ?m" "stopCh ?m = Some Open" "wg ?m = 1"
    by (simp_all add: Start_def NewManager_def)
  have stop: "Stop unmarshal env fuel (h, ?m)
     = (case polling_loop unmarshal env fuel 0 (h, ?m\<lparr>stopCh := Some Closed\<rparr>) of
          None \<Rightarrow> None
        | Some p \<Rightarrow> Some (Crashed p))"
    using m by (simp add: Stop_def Let_def)
  have "\<forall>r. Stop unmarshal env fuel (h, ?m) \<noteq> Some (Returned r)"
    unfolding stop by (simp split: option.splits)
  moreover have "(\<forall>j. unmarshal (content (env j)) \<noteq> None) \<longrightarrow>
        polling_loop unmarshal env fuel k s = None \<and> Stop unmarshal env fuel (h, ?m) = None"
    unfolding stop using polling_loop_runs [of unmarshal env] by simp
  ultimately show ?thesis by blast
qed

theorem Stop_never_returns_witness:
  "(\<forall>j. decode_table docs (content (always fetch_ab j)) \<noteq> None)
   \<and> polling_loop (decode_table docs) (always fetch_ab) 100 0 state_ab = None
   \<and> Stop (decode_table docs) (always fetch_ab) 100 ([], manager1) = None"
proof -
  have h: "\<forall>j. decode_table docs (content (always fetch_ab j)) \<noteq> None"
    by (simp add: decode_table_def always_def fetch_ab_def docs_def)
  from Stop_never_returns [of "decode_table docs" "always fetch_ab" 100 "[]"
      "Some ''node1''" 15000000000 0 state_ab] h
  show ?thesis by (simp add: manager1_def manager0_def)
qed

text \<open>
  C7. For every state in which the manager is not running, \<^verbatim>\<open>Stop()\<close> returns, with
  no error, leaves the manager and the memory exactly as they were, and logs one
  warning.
\<close>

theorem Stop_not_running:
  "\<not> running (snd s) \<Longrightarrow>
   Stop unmarshal env fuel s
     = Some (Returned (None, s, [Warning ''metrics manager already stopped'']))"
  by (simp add: Stop_def)

theorem Stop_not_running_witness:
  "\<not> running (snd ([], manager0))
   \<and> Stop (decode_table docs) (always fetch_ab) 100 ([], manager0)
       = Some (Returned (None, ([], manager0), [Warning ''metrics manager already stopped'']))"
proof -
  have h: "\<not> running (snd ([], manager0))"
    by (simp add: manager0_def NewManager_def)
  from Stop_not_running [OF h] h show ?thesis by simp
qed

section \<open>At most one polling loop\<close>

lemma poll_cycle_frame:
  assumes "poll_cycle unmarshal obs s = Inr (s', wait, logs)"
  shows "wg (snd s') = wg (snd s) \<and> running (snd s') = running (snd s)
         \<and> stopCh (snd s') = stopCh (snd s) \<and> scrapeInterval (snd s') = scrapeInterval (snd s)
         \<and> node (snd s') = node (snd s) \<and> wait = scrapeInterval (snd s) - elapsed obs
         \<and> stats_allocated s'"
proof (cases "unmarshal (content obs)")
  case None
  with assms show ?thesis by (simp add: poll_cycle_nil)
next
  case (Some raw)
  from poll_cycle_eq [of unmarshal obs raw s, OF Some] assms
  have "s' = (fst s @ map (make_stat (NodeName (Node raw))) (Pods raw),
           (snd s)\<lparr>podEphemeralStorageStats :=
                      [length (fst s) ..< length (fst s) + length (Pods raw)]\<rparr>)"
    and "wait = scrapeInterval (snd s) - elapsed obs"
    by simp_all
  then show ?thesis by (simp add: stats_allocated_def list_all_iff)
qed

lemma Stop_returned:
  assumes "Stop unmarshal env fuel s = Some (Returned (e, s', logs))"
  shows "e = None \<and> fst s' = fst s
         \<and> podEphemeralStorageStats (snd s') = podEphemeralStorageStats (snd s)
         \<and> \<not> running (snd s') \<and> (running (snd s) \<longrightarrow> wg (snd s) = 0)
         \<and> wg (snd s') = wg (snd s)"
  using assms
  by (auto simp: Stop_def Let_def split: if_splits option.splits chan.splits)

lemma RecentStats_manager: "RecentStats s = Inr (ret, s') \<Longrightarrow> snd s' = snd s"
  by (auto simp: RecentStats_def split: sum.splits)

lemma reachable_loops:
  "reachable s \<Longrightarrow> wg (snd s) \<le> 1 \<and> (running (snd s) \<longleftrightarrow> wg (snd s) = 1)"
proof (induction rule: reachable.induct)
  case (new currentNode interval)
  show ?case by (simp add: NewManager_def)
next
  case (start s)
  then show ?case by (auto simp: Start_def)
next
  case (stop s unmarshal env fuel e s' logs)
  from Stop_returned [OF stop.hyps(2)] stop.IH show ?case by auto
next
  case (cycle s unmarshal obs s' wait logs)
  from poll_cycle_frame [OF cycle.hyps(3)] cycle.IH show ?case by simp
next
  case (read s ret s')
  from RecentStats_manager [OF read.hyps(2)] read.IH show ?case by simp
qed

text \<open>
  C6. In every state that calls of \<^verbatim>\<open>Start()\<close> and \<^verbatim>\<open>Stop()\<close> (with cycles of the
  loop and reads in between) lead to, once the last call has returned: at most one
  polling loop is live; \<open>running\<close> is true exactly when one is; \<^verbatim>\<open>Start()\<close> on a
  running manager returns the already-running error and changes nothing, so it starts
  no second loop; and \<^verbatim>\<open>Start()\<close> on a manager that is not running returns no error
  and leaves it running with one loop.
\<close>

theorem single_polling_loop:
  assumes "reachable s"
  shows "wg (snd s) \<le> 1 \<and> (running (snd s) \<longleftrightarrow> wg (snd s) = 1)
         \<and> (running (snd s) \<longrightarrow>
              Start (snd s) = (Some (Err ''ephemeral metrics manager is already running''), snd s))
         \<and> (\<not> running (snd s) \<longrightarrow>
              fst (Start (snd s)) = None \<and> running (snd (Start (snd s)))
              \<and> wg (snd (Start (snd s))) = 1)"
  using reachable_loops [OF assms] by (auto simp: Start_def)

theorem single_polling_loop_witness:
  "reachable ([], manager1)
   \<and> wg manager1 = 1 \<and> running manager1
   \<and> Start manager1 = (Some (Err ''ephemeral metrics manager is already running''), manager1)"
proof -
  have "reachable ([], manager0)"
    unfolding manager0_def by (rule reachable.new)
  from reachable.start [OF this] have r: "reachable ([], manager1)"
    by (simp add: manager1_def)
  have "running manager1"
    by (simp add: manager1_def manager0_def Start_def NewManager_def)
  with single_polling_loop [OF r] r show ?thesis by simp
qed

section \<open>What a cycle publishes\<close>

text \<open>
  C2, the claim as stated fails. A first cycle fetches the document of two pods and
  publishes their two records. The second fetch fails with no content; the cycle logs
  the error and goes on to decode and publish, so the snapshot after it is empty and
  not the snapshot of the first cycle.
\<close>

theorem fetch_error_keeps_snapshot_counterexample:
  "poll_cycle (decode_table docs) fetch_ab ([], manager1)
     = Inr (state_ab, 14000000000,
            [InfoV 4 ''Fetched proxy stats from node : %snode1'',
             InfoV 3 ''Taking time to get node stat summary''])
   \<and> err fetch_failed = Some (Err ''connection refused'')
   \<and> poll_cycle (decode_table docs) fetch_failed state_ab
     = Inr (state_failed, - 1000000000,
            [Error (Err ''connection refused''),
             InfoV 4 ''Fetched proxy stats from node : %snode1'',
             InfoV 3 ''Taking time to get node stat summary''])
   \<and> snapshot state_ab = [make_stat ''node1'' pod_a, make_stat ''node1'' pod_b]
   \<and> snapshot state_failed = []
   \<and> snapshot state_failed \<noteq> snapshot state_ab"
  by (simp add: poll_cycle_def decode_table_def docs_def fetch_ab_def fetch_failed_def
      state_ab_def state_failed_def manager1_def manager0_def Start_def NewManager_def
      summary_ab_def zero_Summary_def new_stat_def snapshot_def records_at_def Let_def)

text \<open>
  C2, amended. For every poll cycle whose fetch returns an error, and whose decoder
  leaves a summary behind: the cycle ends without a panic, the error is logged, and the
  snapshot after the cycle holds one record for each pod entry that the decoder left in
  the summary for the returned content, in their order, made of the summary's node
  name and the entry's pod name, namespace and stats pointer, whatever the snapshot was
  before. So the snapshot is what it was only when it already was that list, and it is
  empty when the decoder left no pod entry.
\<close>

theorem fetch_error_cycle_publishes:
  assumes "err obs = Some e" and "unmarshal (content obs) = Some raw"
  shows "\<exists>s' wait logs. poll_cycle unmarshal obs s = Inr (s', wait, logs)
           \<and> Error e \<in> set logs
           \<and> snapshot s' =
               map (\<lambda>podStat. \<lparr>nodeName = NodeName (Node raw),
                                podName = Name (PodRef podStat),
                                namespace = Namespace (PodRef podStat),
                                FsStats = EphemeralStorage podStat\<rparr>) (Pods raw)
           \<and> (snapshot s' = snapshot s \<longleftrightarrow>
                snapshot s =
                  map (\<lambda>podStat. \<lparr>nodeName = NodeName (Node raw),
                                   podName = Name (PodRef podStat),
                                   namespace = Namespace (PodRef podStat),
                                   FsStats = EphemeralStorage podStat\<rparr>) (Pods raw))
           \<and> (Pods raw = [] \<longrightarrow> snapshot s' = [])"
proof -
  have m: "make_stat (NodeName (Node raw)) =
             (\<lambda>podStat. \<lparr>nodeName = NodeName (Node raw),
                          podName = Name (PodRef podStat),
                          namespace = Namespace (PodRef podStat),
                          FsStats = EphemeralStorage podStat\<rparr>)"
    by (rule ext) (simp add: make_stat_def)
  from poll_cycle_snapshot [of unmarshal obs raw s, OF assms(2)] assms(1) show ?thesis
    unfolding m by auto
qed

theorem fetch_error_cycle_publishes_witness:
  "err fetch_error_body = Some (Err ''the server is currently unable to handle the request'')
   \<and> decode_table docs (content fetch_error_body) = Some summary_ab
   \<and> (\<exists>s' wait logs.
         poll_cycle (decode_table docs) fetch_error_body state_a_new = Inr (s', wait, logs)
         \<and> Error (Err ''the server is currently unable to handle the request'') \<in> set logs
         \<and> snapshot s' =
             [\<lparr>nodeName = ''node1'', podName = ''a'', namespace = ''default'',
               FsStats = Some \<lparr>AvailableBytes = Some 200, CapacityBytes = Some 300,
                               UsedBytes = Some 100\<rparr>\<rparr>,
              \<lparr>nodeName = ''node1'', podName = ''b'', namespace = ''default'',
               FsStats = Some \<lparr>AvailableBytes = None, CapacityBytes = Some 30,
                               UsedBytes = Some 10\<rparr>\<rparr>]
         \<and> snapshot s' \<noteq> snapshot state_a_new)"
proof -
  have e: "err fetch_error_body
             = Some (Err ''the server is currently unable to handle the request'')"
    by (simp add: fetch_error_body_def)
  have d: "decode_table docs (content fetch_error_body) = Some summary_ab"
    by (simp add: decode_table_def docs_def fetch_error_body_def)
  have old: "snapshot state_a_new
               = [\<lparr>nodeName = ''node1'', podName = ''a'', namespace = ''default'',
                   FsStats = Some \<lparr>AvailableBytes = Some 200, CapacityBytes = Some 300,
                                   UsedBytes = Some 100\<rparr>\<rparr>,
                  \<lparr>nodeName = ''node1'', podName = [], namespace = [], FsStats = None\<rparr>]"
    by (simp add: snapshot_def records_at_def state_a_new_def make_stat_def pod_a_def pod_new_def)
  from fetch_error_cycle_publishes [where unmarshal = "decode_table docs"
      and obs = fetch_error_body and raw = summary_ab and s = state_a_new, OF e d]
  obtain s' wait logs where
    c: "poll_cycle (decode_table docs) fetch_error_body state_a_new = Inr (s', wait, logs)"
    and l: "Error (Err ''the server is currently unable to handle the request'') \<in> set logs"
    and v: "snapshot s' =
               map (\<lambda>podStat. \<lparr>nodeName = NodeName (Node summary_ab),
                                podName = Name (PodRef podStat),
                                namespace = Namespace (PodRef podStat),
                                FsStats = EphemeralStorage podStat\<rparr>) (Pods summary_ab)"
    by blast
  from v have v': "snapshot s' =
             [\<lparr>nodeName = ''node1'', podName = ''a'', namespace = ''default'',
               FsStats = Some \<lparr>AvailableBytes = Some 200, CapacityBytes = Some 300,
                               UsedBytes = Some 100\<rparr>\<rparr>,
              \<lparr>nodeName = ''node1'', podName = ''b'', namespace = ''default'',
               FsStats = Some \<lparr>AvailableBytes = None, CapacityBytes = Some 30,
                               UsedBytes = Some 10\<rparr>\<rparr>]"
    by (simp add: summary_ab_def pod_a_def pod_b_def)
  have "snapshot s' \<noteq> snapshot state_a_new"
    unfolding v' old by simp
  with e d c l v' show ?thesis by blast
qed

text \<open>
  C9. For every decoded summary, the snapshot published by the cycle holds one record
  for each pod entry of the summary, in their order: the record of an entry is made of
  the summary's node name and the entry's pod name, namespace and stats pointer. So
  the length of the snapshot is the number of pod entries, and an entry without
  ephemeral-storage stats has a record, whose stats pointer is nil.
\<close>

theorem snapshot_one_record_per_pod:
  assumes "unmarshal (content obs) = Some raw"
  shows "\<exists>s' wait logs. poll_cycle unmarshal obs s = Inr (s', wait, logs)
           \<and> snapshot s' =
               map (\<lambda>podStat. \<lparr>nodeName = NodeName (Node raw),
                                podName = Name (PodRef podStat),
                                namespace = Namespace (PodRef podStat),
                                FsStats = EphemeralStorage podStat\<rparr>) (Pods raw)
           \<and> length (snapshot s') = length (Pods raw)
           \<and> (\<forall>i < length (Pods raw).
                 nodeName (snapshot s' ! i) = NodeName (Node raw)
                 \<and> podName (snapshot s' ! i) = Name (PodRef (Pods raw ! i))
                 \<and> namespace (snapshot s' ! i) = Namespace (PodRef (Pods raw ! i))
                 \<and> FsStats (snapshot s' ! i) = EphemeralStorage (Pods raw ! i)
                 \<and> (EphemeralStorage (Pods raw ! i) = None \<longrightarrow> FsStats (snapshot s' ! i) = None))"
proof -
  have m: "make_stat (NodeName (Node raw)) =
             (\<lambda>podStat. \<lparr>nodeName = NodeName (Node raw),
                          podName = Name (PodRef podStat),
                          namespace = Namespace (PodRef podStat),
                          FsStats = EphemeralStorage podStat\<rparr>)"
    by (rule ext) (simp add: make_stat_def)
  from poll_cycle_snapshot [of unmarshal obs raw s, OF assms] show ?thesis
    unfolding m by auto
qed

theorem snapshot_one_record_per_pod_witness:
  "decode_table docs (content fetch_a_new) = Some summary_a_new
   \<and> (\<exists>s' wait logs.
         poll_cycle (decode_table docs) fetch_a_new ([], manager1) = Inr (s', wait, logs)
         \<and> snapshot s' =
             [\<lparr>nodeName = ''node1'', podName = ''a'', namespace = ''default'',
               FsStats = Some \<lparr>AvailableBytes = Some 200, CapacityBytes = Some 300,
                               UsedBytes = Some 100\<rparr>\<rparr>,
              \<lparr>nodeName = ''node1'', podName = [], namespace = [], FsStats = None\<rparr>]
         \<and> length (snapshot s') = 2)"
proof -
  have d: "decode_table docs (content fetch_a_new) = Some summary_a_new"
    by (simp add: decode_table_def docs_def fetch_a_new_def)
  from snapshot_one_record_per_pod [where unmarshal = "decode_table docs" and obs = fetch_a_new
      and raw = summary_a_new and s = "([], manager1)", OF d]
  obtain s' wait logs where
    c: "poll_cycle (decode_table docs) fetch_a_new ([], manager1) = Inr (s', wait, logs)"
    and v: "snapshot s' =
               map (\<lambda>podStat. \<lparr>nodeName = NodeName (Node summary_a_new),
                                podName = Name (PodRef podStat),
                                namespace = Namespace (PodRef podStat),
                                FsStats = EphemeralStorage podStat\<rparr>) (Pods summary_a_new)"
    by blast
  from v have v': "snapshot s' =
             [\<lparr>nodeName = ''node1'', podName = ''a'', namespace = ''default'',
               FsStats = Some \<lparr>AvailableBytes = Some 200, CapacityBytes = Some 300,
                               UsedBytes = Some 100\<rparr>\<rparr>,
              \<lparr>nodeName = ''node1'', podName = [], namespace = [], FsStats = None\<rparr>]"
    by (simp add: summary_a_new_def pod_a_def pod_new_def)
  then have "length (snapshot s') = 2" by simp
  with d c v' show ?thesis by blast
qed

text \<open>
  C4, the claim as stated fails. The second pod entry of the document has neither a pod
  reference nor ephemeral-storage stats; its record is in the published snapshot, with
  empty names and a nil stats pointer.
\<close>

theorem incomplete_pod_dropped_counterexample:
  "poll_cycle (decode_table docs) fetch_a_new ([], manager1)
     = Inr (state_a_new, 14000000000,
            [InfoV 4 ''Fetched proxy stats from node : %snode1'',
             InfoV 3 ''Taking time to get node stat summary''])
   \<and> PodRef pod_new = \<lparr>Name = [], Namespace = []\<rparr> \<and> EphemeralStorage pod_new = None
   \<and> snapshot state_a_new
       = [make_stat ''node1'' pod_a,
          \<lparr>nodeName = ''node1'', podName = [], namespace = [], FsStats = None\<rparr>]"
  by (simp add: poll_cycle_def decode_table_def docs_def fetch_a_new_def
      state_a_new_def manager1_def manager0_def Start_def NewManager_def
      summary_a_new_def pod_new_def make_stat_def new_stat_def snapshot_def records_at_def Let_def)

text \<open>
  C4, amended. For every decoded summary and every pod entry of it, complete or not,
  the cycle ends without a panic and the snapshot holds, at the entry's position, the
  record made of the node name, the name and namespace of the entry's pod reference
  (empty strings when the document had none) and the entry's stats pointer (nil when
  the document had none): no entry is dropped and none stops the build.
\<close>

theorem incomplete_pods_kept:
  assumes "unmarshal (content obs) = Some raw" and "i < length (Pods raw)"
  shows "\<exists>s' wait logs. poll_cycle unmarshal obs s = Inr (s', wait, logs)
           \<and> i < length (snapshot s')
           \<and> snapshot s' ! i =
               \<lparr>nodeName = NodeName (Node raw),
                podName = Name (PodRef (Pods raw ! i)),
                namespace = Namespace (PodRef (Pods raw ! i)),
                FsStats = EphemeralStorage (Pods raw ! i)\<rparr>"
  using poll_cycle_snapshot [of unmarshal obs raw s, OF assms(1)] assms(2)
  by (auto simp: make_stat_def)


theorem incomplete_pods_kept_witness:
  "decode_table docs (content fetch_a_new) = Some summary_a_new
   \<and> 1 < length (Pods summary_a_new)
   \<and> (\<exists>s' wait logs. poll_cycle (decode_table docs) fetch_a_new ([], manager1) = Inr (s', wait, logs)
          \<and> 1 < length (snapshot s')
          \<and> snapshot s' ! 1 = \<lparr>nodeName = ''node1'', podName = [], namespace = [], FsStats = None\<rparr>)"
proof -
  have d: "decode_table docs (content fetch_a_new) = Some summary_a_new"
    by (simp add: decode_table_def docs_def fetch_a_new_def)
  have n: "1 < length (Pods summary_a_new)"
    by (simp add: summary_a_new_def)
  from incomplete_pods_kept [where unmarshal = "decode_table docs" and obs = fetch_a_new
      and raw = summary_a_new and s = "([], manager1)" and i = 1, OF d n] d n show ?thesis
    by (simp add: summary_a_new_def pod_new_def)
qed

section \<open>The wait given to the timer\<close>

text \<open>Subtracting two non-negative 64-bit durations does not wrap around.\<close>

lemma sint_sub_nonneg:
  fixes a b :: "64 word"
  assumes "0 \<le> sint a" and "0 \<le> sint b"
  shows "sint (a - b) = sint a - sint b"
proof -
  have "sint a < 2 ^ 63" and "sint b < 2 ^ 63"
    using sint_lt [of a] sint_lt [of b] by simp_all
  with assms have "- (2 ^ 63) \<le> sint a - sint b" and "sint a - sint b < 2 ^ 63"
    by simp_all
  then have "signed_take_bit 63 (sint a - sint b) = sint a - sint b"
    by (rule signed_take_bit_int_eq_self)
  then show ?thesis by (simp add: sint_word_ariths)
qed

text \<open>
  C5, the claim as stated fails. With an interval of 15 seconds and a cycle that took 16
  seconds, the duration the loop passes to \<^verbatim>\<open>timer.Reset\<close> is minus one second: it
  is negative, not clamped to zero.
\<close>

theorem timer_wait_negative_counterexample:
  "poll_cycle (decode_table docs) fetch_slow ([], manager1)
     = Inr (state_ab, - 1000000000,
            [InfoV 4 ''Fetched proxy stats from node : %snode1'',
             InfoV 3 ''Taking time to get node stat summary''])
   \<and> sint (scrapeInterval manager1) = 15000000000
   \<and> sint (elapsed fetch_slow) = 16000000000
   \<and> sint (- 1000000000 :: Duration) = - 1000000000
   \<and> sint (- 1000000000 :: Duration) < 0"
  by (simp add: poll_cycle_def decode_table_def docs_def fetch_slow_def
      state_ab_def manager1_def manager0_def Start_def NewManager_def
      summary_ab_def new_stat_def Let_def)

text \<open>
  C5, amended. For every poll cycle that ends, with a configured interval and a
  measured duration that are not negative: the duration passed to \<^verbatim>\<open>timer.Reset\<close>
  is the interval minus the measured duration, with no wrap-around and no clamp. It is
  non-negative exactly when the cycle took no longer than the interval, and zero
  exactly when it took the interval.
\<close>

theorem timer_wait_unclamped:
  assumes "poll_cycle unmarshal obs s = Inr (s', wait, logs)"
    and "0 \<le> sint (scrapeInterval (snd s))" and "0 \<le> sint (elapsed obs)"
  shows "wait = scrapeInterval (snd s) - elapsed obs
         \<and> sint wait = sint (scrapeInterval (snd s)) - sint (elapsed obs)
         \<and> (0 \<le> sint wait \<longleftrightarrow> sint (elapsed obs) \<le> sint (scrapeInterval (snd s)))
         \<and> (wait = 0 \<longleftrightarrow> elapsed obs = scrapeInterval (snd s))"
proof -
  from poll_cycle_frame [OF assms(1)] have w: "wait = scrapeInterval (snd s) - elapsed obs"
    by simp
  have s: "sint wait = sint (scrapeInterval (snd s)) - sint (elapsed obs)"
    unfolding w using assms(2,3) by (rule sint_sub_nonneg)
  have z: "wait = 0 \<longleftrightarrow> elapsed obs = scrapeInterval (snd s)"
    unfolding w by auto
  from w s z show ?thesis by simp
qed


theorem timer_wait_unclamped_witness:
  "poll_cycle (decode_table docs) fetch_slow ([], manager1)
     = Inr (state_ab, - 1000000000,
            [InfoV 4 ''Fetched proxy stats from node : %snode1'',
             InfoV 3 ''Taking time to get node stat summary''])
   \<and> 0 \<le> sint (scrapeInterval (snd ([], manager1)))
   \<and> 0 \<le> sint (elapsed fetch_slow)
   \<and> sint (- 1000000000 :: Duration) = sint (scrapeInterval manager1) - sint (elapsed fetch_slow)
   \<and> \<not> 0 \<le> sint (- 1000000000 :: Duration)"
proof -
  have c: "poll_cycle (decode_table docs) fetch_slow ([], manager1)
     = Inr (state_ab, - 1000000000,
            [InfoV 4 ''Fetched proxy stats from node : %snode1'',
             InfoV 3 ''Taking time to get node stat summary''])"
    by (simp add: poll_cycle_def decode_table_def docs_def fetch_slow_def
      state_ab_def manager1_def manager0_def Start_def NewManager_def
      summary_ab_def new_stat_def Let_def)
  have i: "0 \<le> sint (scrapeInterval (snd ([], manager1)))"
    by (simp add: manager1_def manager0_def Start_def NewManager_def)
  have e: "0 \<le> sint (elapsed fetch_slow)"
    by (simp add: fetch_slow_def)
  have lt: "\<not> sint (elapsed fetch_slow) \<le> sint (scrapeInterval (snd ([], manager1)))"
    by (simp add: fetch_slow_def manager1_def manager0_def Start_def NewManager_def)
  from timer_wait_unclamped [OF c i e] c i e lt show ?thesis by simp
qed

section \<open>Reading the snapshot\<close>

text \<open>
  When every pointer of the manager has a record behind it, \<^verbatim>\<open>RecentStats\<close> returns
  new locations that hold the copies, in order, and changes nothing else.
\<close>

lemma RecentStats_eq:
  assumes "stats_allocated s"
  shows "RecentStats s =
           Inr ([length (fst s) ..< length (fst s) + length (podEphemeralStorageStats (snd s))],
                (fst s @ snapshot s, snd s))"
  using copy_stats_eq [of "fst s" "podEphemeralStorageStats (snd s)" "[]"] assms
  by (simp add: RecentStats_def stats_allocated_def snapshot_def)


lemma stats_allocated_append:
  "stats_allocated s \<Longrightarrow> stats_allocated (fst s @ ext, snd s)"
  by (auto simp: stats_allocated_def list_all_iff)


lemma snapshot_append:
  "stats_allocated s \<Longrightarrow> snapshot (fst s @ ext, snd s) = snapshot s"
  by (simp add: snapshot_def stats_allocated_def records_at_append)


lemma records_at_update:
  "a \<notin> set ps \<Longrightarrow> records_at (h[a := v]) ps = records_at h ps"
  by (induction ps) (auto simp: records_at_def)


lemma records_at_writes:
  "list_all (\<lambda>w. fst w \<notin> set ps) ws \<Longrightarrow> records_at (write_stats ws h) ps = records_at h ps"
proof (induction ws arbitrary: h)
  case Nil
  show ?case by simp
next
  case (Cons w ws)
  obtain a v where w: "w = (a, v)" by (cases w)
  with Cons.prems have "a \<notin> set ps" and "list_all (\<lambda>w. fst w \<notin> set ps) ws"
    by simp_all
  then show ?case using Cons.IH [of "h[a := v]"] w by (simp add: records_at_update)
qed


lemma read_times_snapshot:
  "stats_allocated s \<Longrightarrow>
   \<exists>sn. read_times n s = Inr sn \<and> snapshot sn = snapshot s \<and> snd sn = snd s"
proof (induction n arbitrary: s)
  case 0
  show ?case by simp
next
  case (Suc n)
  let ?s1 = "(fst s @ snapshot s, snd s)"
  have a: "stats_allocated ?s1"
    using Suc.prems by (rule stats_allocated_append)
  have e: "snapshot ?s1 = snapshot s"
    using Suc.prems by (rule snapshot_append)
  from Suc.IH [OF a] e show ?case
    by (simp add: RecentStats_eq [OF Suc.prems])
qed

text \<open>Every state of a run has a record behind every pointer of the manager.\<close>

lemma reachable_allocated: "reachable s \<Longrightarrow> stats_allocated s"
proof (induction rule: reachable.induct)
  case (new currentNode interval)
  show ?case by (simp add: stats_allocated_def NewManager_def)
next
  case (start s)
  then show ?case by (simp add: stats_allocated_def Start_def)
next
  case (stop s unmarshal env fuel e s' logs)
  from Stop_returned [OF stop.hyps(2)] stop.IH show ?case
    by (simp add: stats_allocated_def)
next
  case (cycle s unmarshal obs s' wait logs)
  from poll_cycle_frame [OF cycle.hyps(3)] show ?case by simp
next
  case (read s ret s')
  from read.hyps(2) RecentStats_eq [OF read.IH] have "s' = (fst s @ snapshot s, snd s)"
    by simp
  with stats_allocated_append [OF read.IH] show ?case by simp
qed

text \<open>
  C8. For every state whose manager's pointers all have a record behind them, two calls
  of \<^verbatim>\<open>RecentStats()\<close> in a row, with no publish in between, both return; the
  records of the second result are the records of the first, in the same order (they
  are the stored snapshot), and the second call leaves the records of the first result
  as they were.
\<close>

theorem RecentStats_twice_equal:
  assumes "stats_allocated s"
  shows "\<exists>ret1 s1 ret2 s2.
           RecentStats s = Inr (ret1, s1) \<and> RecentStats s1 = Inr (ret2, s2)
           \<and> records_at (fst s1) ret1 = snapshot s
           \<and> records_at (fst s2) ret2 = records_at (fst s1) ret1
           \<and> records_at (fst s2) ret1 = records_at (fst s1) ret1"
proof -
  let ?h = "fst s" and ?n = "length (podEphemeralStorageStats (snd s))"
  let ?ret1 = "[length ?h ..< length ?h + ?n]"
  let ?s1 = "(?h @ snapshot s, snd s)"
  let ?ret2 = "[length (fst ?s1) ..< length (fst ?s1) + ?n]"
  let ?s2 = "(fst ?s1 @ snapshot ?s1, snd s)"
  have n: "length (snapshot s) = ?n"
    by (simp add: snapshot_def records_at_def)
  have a1: "stats_allocated ?s1"
    using assms by (rule stats_allocated_append)
  have e1: "snapshot ?s1 = snapshot s"
    using assms by (rule snapshot_append)
  have r1: "RecentStats s = Inr (?ret1, ?s1)"
    using assms by (rule RecentStats_eq)
  have r2: "RecentStats ?s1 = Inr (?ret2, ?s2)"
    using RecentStats_eq [OF a1] by simp
  have v1: "records_at (fst ?s1) ?ret1 = snapshot s"
    using records_at_fresh [of ?h "snapshot s"] n by simp
  have v2: "records_at (fst ?s2) ?ret2 = snapshot s"
    using records_at_fresh [of "fst ?s1" "snapshot ?s1"] n e1 by simp
  have "list_all (\<lambda>p. p < length (fst ?s1)) ?ret1"
    using n by (simp add: list_all_iff)
  then have v3: "records_at (fst ?s2) ?ret1 = records_at (fst ?s1) ?ret1"
    using records_at_append [of "fst ?s1" ?ret1 "snapshot ?s1"] by simp
  from r1 r2 v1 v2 v3 show ?thesis by (metis (no_types))
qed


theorem RecentStats_twice_equal_witness:
  "stats_allocated state_ab
   \<and> (\<exists>ret1 s1 ret2 s2.
         RecentStats state_ab = Inr (ret1, s1) \<and> RecentStats s1 = Inr (ret2, s2)
         \<and> records_at (fst s1) ret1 = [make_stat ''node1'' pod_a, make_stat ''node1'' pod_b]
         \<and> records_at (fst s2) ret2 = [make_stat ''node1'' pod_a, make_stat ''node1'' pod_b])"
proof -
  have h: "stats_allocated state_ab"
    by (simp add: stats_allocated_def state_ab_def)
  have e: "snapshot state_ab = [make_stat ''node1'' pod_a, make_stat ''node1'' pod_b]"
    by (simp add: snapshot_def records_at_def state_ab_def)
  from RecentStats_twice_equal [OF h] obtain ret1 s1 ret2 s2 where
    r1: "RecentStats state_ab = Inr (ret1, s1)" and r2: "RecentStats s1 = Inr (ret2, s2)"
    and v1: "records_at (fst s1) ret1 = snapshot state_ab"
    and v2: "records_at (fst s2) ret2 = records_at (fst s1) ret1"
    by blast
  from v1 v2 e have "records_at (fst s1) ret1 = [make_stat ''node1'' pod_a, make_stat ''node1'' pod_b]"
    and "records_at (fst s2) ret2 = [make_stat ''node1'' pod_a, make_stat ''node1'' pod_b]"
    by simp_all
  with h r1 r2 show ?thesis by blast
qed

text \<open>
  C10. For every state whose manager's pointers all have a record behind them,
  \<^verbatim>\<open>RecentStats()\<close> returns a slice whose elements are distinct locations, none of
  them a location the manager points to, holding copies of the stored records; the
  call leaves the manager and the stored snapshot as they were; any sequence of writes
  to elements of the returned slice (whole records, or their named fields) leaves the
  stored snapshot as it was; and so does any number of reads. What the \<open>FsStats\<close>
  pointer of a record points to is shared between the stored record and its copy, and
  is not a location of this memory.
\<close>

theorem RecentStats_fresh_copy:
  assumes "stats_allocated s"
  shows "\<exists>ret s'. RecentStats s = Inr (ret, s')
           \<and> snd s' = snd s \<and> snapshot s' = snapshot s
           \<and> records_at (fst s') ret = snapshot s
           \<and> distinct ret \<and> set ret \<inter> set (podEphemeralStorageStats (snd s)) = {}
           \<and> (\<forall>ws. list_all (\<lambda>w. fst w \<in> set ret) ws \<longrightarrow>
                  snapshot (write_stats ws (fst s'), snd s') = snapshot s)
           \<and> (\<forall>n. \<exists>sn. read_times n s = Inr sn \<and> snapshot sn = snapshot s \<and> snd sn = snd s)"
proof -
  let ?h = "fst s" and ?ps = "podEphemeralStorageStats (snd s)"
  let ?ret = "[length ?h ..< length ?h + length ?ps]"
  let ?s' = "(?h @ snapshot s, snd s)"
  have n: "length (snapshot s) = length ?ps"
    by (simp add: snapshot_def records_at_def)
  have r: "RecentStats s = Inr (?ret, ?s')"
    using assms by (rule RecentStats_eq)
  have e: "snapshot ?s' = snapshot s"
    using assms by (rule snapshot_append)
  have v: "records_at (fst ?s') ?ret = snapshot s"
    using records_at_fresh [of ?h "snapshot s"] n by simp
  have d: "set ?ret \<inter> set ?ps = {}"
    using assms by (auto simp: stats_allocated_def list_all_iff)
  have w: "snapshot (write_stats ws (fst ?s'), snd ?s') = snapshot s"
    if "list_all (\<lambda>w. fst w \<in> set ?ret) ws" for ws
  proof -
    have "fst w \<notin> set ?ps" if "w \<in> set ws" for w
    proof -
      from \<open>list_all (\<lambda>w. fst w \<in> set ?ret) ws\<close> that have "fst w \<in> set ?ret"
        by (simp add: list_all_iff)
      with d show ?thesis by blast
    qed
    then have "list_all (\<lambda>w. fst w \<notin> set ?ps) ws"
      by (simp add: list_all_iff)
    then have "records_at (write_stats ws (fst ?s')) ?ps = records_at (fst ?s') ?ps"
      by (rule records_at_writes)
    with e show ?thesis by (simp add: snapshot_def)
  qed
  have t: "\<exists>sn. read_times n s = Inr sn \<and> snapshot sn = snapshot s \<and> snd sn = snd s" for n
    using assms by (rule read_times_snapshot)
  from r e v d w t show ?thesis by (intro exI [of _ ?ret] exI [of _ ?s']) simp
qed


theorem RecentStats_fresh_copy_witness:
  "stats_allocated state_ab
   \<and> RecentStats state_ab = Inr ([2, 3], (fst state_ab @ snapshot state_ab, snd state_ab))
   \<and> snapshot (write_stats [(2, make_stat ''other'' pod_new), (3, make_stat ''other'' pod_a)]
                 (fst state_ab @ snapshot state_ab), snd state_ab)
       = snapshot state_ab
   \<and> (\<exists>sn. read_times 3 state_ab = Inr sn \<and> snapshot sn = snapshot state_ab)"
proof -
  have h: "stats_allocated state_ab"
    by (simp add: stats_allocated_def state_ab_def)
  have c: "RecentStats state_ab = Inr ([2, 3], (fst state_ab @ snapshot state_ab, snd state_ab))"
    by (simp add: RecentStats_def new_stat_def snapshot_def records_at_def state_ab_def)
  from RecentStats_fresh_copy [OF h] obtain ret s' where
    r: "RecentStats state_ab = Inr (ret, s')"
    and w: "\<forall>ws. list_all (\<lambda>w. fst w \<in> set ret) ws \<longrightarrow>
                  snapshot (write_stats ws (fst s'), snd s') = snapshot state_ab"
    and t: "\<forall>n. \<exists>sn. read_times n state_ab = Inr sn \<and> snapshot sn = snapshot state_ab
                  \<and> snd sn = snd state_ab"
    by blast
  from r c have rs: "ret = [2, 3]" "s' = (fst state_ab @ snapshot state_ab, snd state_ab)"
    by simp_all
  from w [rule_format, of "[(2, make_stat ''other'' pod_new), (3, make_stat ''other'' pod_a)]"]
  have "snapshot (write_stats [(2, make_stat ''other'' pod_new), (3, make_stat ''other'' pod_a)]
                 (fst state_ab @ snapshot state_ab), snd state_ab) = snapshot state_ab"
    unfolding rs by simp
  with h c t show ?thesis by blast
qed

section \<open>Collecting\<close>

text \<open>
  One metric over the records: when \<^verbatim>\<open>getValue\<close> succeeds on every record, one
  sample is sent for each; otherwise the loop stops at the first record on which it
  fails.
\<close>

lemma collect_pods_all:
  assumes "list_all (\<lambda>stat. \<exists>v. getValue metric (FsStats stat) = Inr v) stats"
    and "length (variableLabels d) = 3"
  shows "\<exists>ch'. collect_pods d metric stats ch = (ch', None) \<and> length ch' = length ch + length stats"
  using assms(1)
proof (induction stats arbitrary: ch)
  case Nil
  show ?case by simp
next
  case (Cons stat rest)
  from Cons.prems obtain v where v: "getValue metric (FsStats stat) = Inr v"
    and rest: "list_all (\<lambda>stat. \<exists>v. getValue metric (FsStats stat) = Inr v) rest"
    by auto
  from Cons.IH [OF rest,
      of "ch @ [ConstMetric d (valueType metric) v [nodeName stat, namespace stat, podName stat]]"]
    v assms(2)
  show ?case by (simp add: MustNewConstMetric_def)
qed

lemma collect_pods_nil:
  assumes "\<not> list_all (\<lambda>stat. \<exists>v. getValue metric (FsStats stat) = Inr v) stats"
    and "\<And>fs. getValue metric fs = Inl NilPointerDereference \<or> (\<exists>v. getValue metric fs = Inr v)"
    and "length (variableLabels d) = 3"
  shows "\<exists>ch'. collect_pods d metric stats ch = (ch', Some NilPointerDereference)"
  using assms(1)
proof (induction stats arbitrary: ch)
  case Nil
  then show ?case by simp
next
  case (Cons stat rest)
  show ?case
  proof (cases "getValue metric (FsStats stat)")
    case (Inl p)
    with assms(2) [of "FsStats stat"] show ?thesis by simp
  next
    case (Inr v)
    with Cons.prems have "\<not> list_all (\<lambda>stat. \<exists>v. getValue metric (FsStats stat) = Inr v) rest"
      by simp
    from Cons.IH [OF this] Inr assms(3) show ?thesis
      by (simp add: MustNewConstMetric_def)
  qed
qed

lemma getValue_cases:
  "getValue_used fs = Inl NilPointerDereference \<or> (\<exists>v. getValue_used fs = Inr v)"
  "getValue_available fs = Inl NilPointerDereference \<or> (\<exists>v. getValue_available fs = Inr v)"
  "getValue_capacity fs = Inl NilPointerDereference \<or> (\<exists>v. getValue_capacity fs = Inr v)"
  by (auto simp: getValue_used_def getValue_available_def getValue_capacity_def split: option.splits)

lemma complete_iff:
  "complete stat \<longleftrightarrow>
     (\<exists>v. getValue_used (FsStats stat) = Inr v) \<and> (\<exists>v. getValue_available (FsStats stat) = Inr v)
     \<and> (\<exists>v. getValue_capacity (FsStats stat) = Inr v)"
  by (auto simp: complete_def getValue_used_def getValue_available_def getValue_capacity_def
      split: option.splits)

text \<open>
  The three metrics of the collector over a list of records: three samples for each
  record when all records are complete, and a nil dereference as soon as one is not.
\<close>

lemma collect_metrics_outcome:
  "(list_all complete stats \<longrightarrow>
      (\<exists>ch. collect_metrics (metrics newEphemeralStorageCollector) stats [] = (ch, None)
            \<and> length ch = 3 * length stats))
   \<and> (\<not> list_all complete stats \<longrightarrow>
      (\<exists>ch. collect_metrics (metrics newEphemeralStorageCollector) stats []
               = (ch, Some NilPointerDereference)))"
proof -
  let ?ok = "\<lambda>g. list_all (\<lambda>stat. \<exists>v. g (FsStats stat) = Inr v) stats"
  let ?labels = "[''node_name'', ''namespace_name'', ''pod_name'']"
  let ?mu = "metrics newEphemeralStorageCollector ! 0"
  let ?ma = "metrics newEphemeralStorageCollector ! 1"
  let ?mc = "metrics newEphemeralStorageCollector ! 2"
  have ms: "metrics newEphemeralStorageCollector = [?mu, ?ma, ?mc]"
    by (simp add: newEphemeralStorageCollector_def)
  have g: "getValue ?mu = getValue_used" "getValue ?ma = getValue_available" "getValue ?mc = getValue_capacity"
    by (simp_all add: newEphemeralStorageCollector_def)
  have l: "length (variableLabels (desc ?mu ?labels)) = 3" "length (variableLabels (desc ?ma ?labels)) = 3"
    "length (variableLabels (desc ?mc ?labels)) = 3"
    by (simp_all add: newEphemeralStorageCollector_def desc_def)
  have c: "list_all complete stats \<longleftrightarrow> ?ok getValue_used \<and> ?ok getValue_available \<and> ?ok getValue_capacity"
    by (auto simp: list_all_iff complete_iff)
  have pu: "?ok getValue_used \<Longrightarrow> \<exists>ch'. collect_pods (desc ?mu ?labels) ?mu stats ch = (ch', None) \<and> length ch' = length ch + length stats" for ch
    using collect_pods_all [of ?mu stats "desc ?mu ?labels" ch] g l by simp
  have pa: "?ok getValue_available \<Longrightarrow> \<exists>ch'. collect_pods (desc ?ma ?labels) ?ma stats ch = (ch', None) \<and> length ch' = length ch + length stats" for ch
    using collect_pods_all [of ?ma stats "desc ?ma ?labels" ch] g l by simp
  have pc: "?ok getValue_capacity \<Longrightarrow> \<exists>ch'. collect_pods (desc ?mc ?labels) ?mc stats ch = (ch', None) \<and> length ch' = length ch + length stats" for ch
    using collect_pods_all [of ?mc stats "desc ?mc ?labels" ch] g l by simp
  have nu: "\<not> ?ok getValue_used \<Longrightarrow> \<exists>ch'. collect_pods (desc ?mu ?labels) ?mu stats ch = (ch', Some NilPointerDereference)" for ch
    using collect_pods_nil [of ?mu stats "desc ?mu ?labels" ch] g l getValue_cases by simp
  have na: "\<not> ?ok getValue_available \<Longrightarrow> \<exists>ch'. collect_pods (desc ?ma ?labels) ?ma stats ch = (ch', Some NilPointerDereference)" for ch
    using collect_pods_nil [of ?ma stats "desc ?ma ?labels" ch] g l getValue_cases by simp
  have nc: "\<not> ?ok getValue_capacity \<Longrightarrow> \<exists>ch'. collect_pods (desc ?mc ?labels) ?mc stats ch = (ch', Some NilPointerDereference)" for ch
    using collect_pods_nil [of ?mc stats "desc ?mc ?labels" ch] g l getValue_cases by simp
  show ?thesis
  proof (cases "?ok getValue_used")
    case False
    from nu [OF False, of "[]"] c False show ?thesis
      by (subst (1 2) ms) auto
  next
    case u: True
    from pu [OF u, of "[]"] obtain ch1 where
      1: "collect_pods (desc ?mu ?labels) ?mu stats [] = (ch1, None)" "length ch1 = length stats"
      by auto
    show ?thesis
    proof (cases "?ok getValue_available")
      case False
      from na [OF False, of ch1] c False 1 show ?thesis
        by (subst (1 2) ms) auto
    next
      case a: True
      from pa [OF a, of ch1] 1 obtain ch2 where
        2: "collect_pods (desc ?ma ?labels) ?ma stats ch1 = (ch2, None)" "length ch2 = 2 * length stats"
        by auto
      show ?thesis
      proof (cases "?ok getValue_capacity")
        case False
        from nc [OF False, of ch2] c False 1 2 show ?thesis
          by (subst (1 2) ms) auto
      next
        case True
        from pc [OF True, of ch2] 2 obtain ch3 where
          3: "collect_pods (desc ?mc ?labels) ?mc stats ch2 = (ch3, None)" "length ch3 = 3 * length stats"
          by auto
        from c u a True 1 2 3 show ?thesis
          by (subst (1 2) ms) auto
      qed
    qed
  qed
qed

text \<open>
  A scrape, in a state whose manager's pointers all have a record behind them: it
  returns three samples for each pod and the error gauge when every record of the
  snapshot is complete, and it panics when one record lacks its stats or a byte field.
\<close>

lemma Collect_outcome:
  assumes "stats_allocated s"
  shows "(list_all complete (snapshot s) \<longrightarrow>
            (\<exists>ch. fst (Collect newEphemeralStorageCollector s) = (ch, None)
                  \<and> length ch = 3 * length (snapshot s) + 1))
         \<and> (\<not> list_all complete (snapshot s) \<longrightarrow>
            (\<exists>ch. fst (Collect newEphemeralStorageCollector s) = (ch, Some NilPointerDereference)))"
proof -
  let ?h = "fst s" and ?ps = "podEphemeralStorageStats (snd s)"
  have n: "length (snapshot s) = length ?ps"
    by (simp add: snapshot_def records_at_def)
  have v: "records_at (?h @ snapshot s) [length ?h ..< length ?h + length ?ps] = snapshot s"
    using records_at_fresh [of ?h "snapshot s"] n by simp
  have m: "metrics (newEphemeralStorageCollector\<lparr>errors := 0\<rparr>) = metrics newEphemeralStorageCollector"
    by simp
  from collect_metrics_outcome [of "snapshot s"] show ?thesis
    by (auto simp: Collect_def collectEphemeralStorageInfo_def RecentStats_eq [OF assms] v m Let_def)
qed

text \<open>
  C3, as the code behaves. The claim is that a record with an absent byte field yields
  no sample for that metric and that the scrape goes on. The snapshot holds pod a with
  its three fields and pod b without \<^verbatim>\<open>availableBytes\<close>. \<^verbatim>\<open>Collect\<close> sends the
  used-bytes samples of a and b and the available-bytes sample of a, then \<^verbatim>\<open>getValue\<close>
  dereferences the nil \<^verbatim>\<open>AvailableBytes\<close> of b and the call panics: three samples
  instead of five, and no sample of the error gauge.
\<close>

theorem Collect_missing_field_panics:
  "snapshot state_ab = [make_stat ''node1'' pod_a, make_stat ''node1'' pod_b]
   \<and> EphemeralStorage pod_a
       = Some \<lparr>AvailableBytes = Some 200, CapacityBytes = Some 300, UsedBytes = Some 100\<rparr>
   \<and> EphemeralStorage pod_b
       = Some \<lparr>AvailableBytes = None, CapacityBytes = Some 30, UsedBytes = Some 10\<rparr>
   \<and> fst (Collect newEphemeralStorageCollector state_ab)
       = ([ConstMetric
             (desc (metrics newEphemeralStorageCollector ! 0) [''node_name'', ''namespace_name'', ''pod_name''])
             GaugeValue 100 [''node1'', ''default'', ''a''],
           ConstMetric
             (desc (metrics newEphemeralStorageCollector ! 0) [''node_name'', ''namespace_name'', ''pod_name''])
             GaugeValue 10 [''node1'', ''default'', ''b''],
           ConstMetric
             (desc (metrics newEphemeralStorageCollector ! 1) [''node_name'', ''namespace_name'', ''pod_name''])
             GaugeValue 200 [''node1'', ''default'', ''a'']],
          Some NilPointerDereference)"
  by (simp add: Collect_def collectEphemeralStorageInfo_def RecentStats_def new_stat_def
      snapshot_def records_at_def state_ab_def newEphemeralStorageCollector_def
      MustNewConstMetric_def desc_def make_stat_def pod_a_def pod_b_def
      getValue_used_def getValue_available_def getValue_capacity_def Let_def)

end
